theory Spec2Isabelle
  imports Main "HOL-Library.AList"
begin

section \<open>Python values used by \<open>stock_market/analysis/index.py\<close>\<close>

text \<open>
  Exceptions are values: every function of the module returns \<open>exn + 'a\<close>, with
  \<open>Inl\<close> for a raised exception. A Python \<open>None\<close> result is \<open>Inr None\<close>.
\<close>

datatype exn =
    TypeError | IndexError | ValueError | KeyError | AttributeError
  | ConnectionError | Warning

subsection \<open>Strings\<close>

definition newline :: char where
  "newline = CHR 0x0A"

text \<open>\<open>s.split("\n")\<close>: the pieces between line breaks, empty pieces included.\<close>

fun split_nl :: "string \<Rightarrow> string list" where
  "split_nl [] = [[]]"
| "split_nl (c # cs) =
     (if c = newline then [] # split_nl cs
      else (case split_nl cs of [] \<Rightarrow> [[c]] | p # ps \<Rightarrow> (c # p) # ps))"

text \<open>\<open>list(filter(None, s.split("\n")))\<close>: the non-empty pieces.\<close>

definition fragments :: "string \<Rightarrow> string list" where
  "fragments s = filter (\<lambda>p. p \<noteq> []) (split_nl s)"

text \<open>\<open>s.replace("\n", "")\<close>.\<close>

definition strip_nl :: "string \<Rightarrow> string" where
  "strip_nl s = filter (\<lambda>c. c \<noteq> newline) s"

text \<open>
  \<open>s.upper()\<close> follows the Unicode case mapping (the long s, U+017F, becomes \<open>S\<close>) and is
  not modelled: \<open>IndexView.__init__\<close> below takes it as the parameter \<open>str_upper\<close>. On a
  text of ASCII characters only it is the following function, which the examples use.
\<close>

definition upper_ascii_char :: "char \<Rightarrow> char" where
  "upper_ascii_char c =
     (let n = (of_char c :: nat) in if 97 \<le> n \<and> n \<le> 122 then char_of (n - 32) else c)"

definition upper_ascii :: "string \<Rightarrow> string" where
  "upper_ascii s = map upper_ascii_char s"

text \<open>\<open>re.search\<close> of a literal: does \<open>pat\<close> occur somewhere in \<open>s\<close>?\<close>

fun starts_with :: "string \<Rightarrow> string \<Rightarrow> bool" where
  "starts_with [] s = True"
| "starts_with (p # ps) [] = False"
| "starts_with (p # ps) (c # cs) = (p = c \<and> starts_with ps cs)"

fun search :: "string \<Rightarrow> string \<Rightarrow> bool" where
  "search pat [] = (pat = [])"
| "search pat (c # cs) = (starts_with pat (c # cs) \<or> search pat cs)"

text \<open>\<open>" ".join(xs)\<close>.\<close>

fun join_sp :: "string list \<Rightarrow> string" where
  "join_sp [] = []"
| "join_sp [x] = x"
| "join_sp (x # y # ys) = x @ '' '' @ join_sp (y # ys)"

subsection \<open>The parsed document (bs4)\<close>

text \<open>
  A parsed page is a tree: a \<open>Tag\<close> has a name, the tokens of its \<open>class\<close> attribute
  (empty when it has none) and its child nodes; a \<open>NavigableString\<close> is a piece of text.
  The document is the list of its top-level nodes.
\<close>

datatype node = Tag string "string list" "node list" | NavigableString string

type_synonym document = "node list"

fun tag_name :: "node \<Rightarrow> string option" where
  "tag_name (Tag n cls kids) = Some n"
| "tag_name (NavigableString s) = None"

fun classes :: "node \<Rightarrow> string list" where
  "classes (Tag n cls kids) = cls"
| "classes (NavigableString s) = []"

fun contents :: "node \<Rightarrow> node list" where
  "contents (Tag n cls kids) = kids"
| "contents (NavigableString s) = []"

text \<open>All nodes below a node, in document order.\<close>

fun descendants :: "node \<Rightarrow> node list" where
  "descendants (Tag n cls kids) = concat (map (\<lambda>k. k # descendants k) kids)"
| "descendants (NavigableString s) = []"

definition doc_descendants :: "document \<Rightarrow> node list" where
  "doc_descendants doc = concat (map (\<lambda>k. k # descendants k) doc)"

text \<open>\<open>tag.find_all(name)\<close>: the descendant tags of that name, in document order.\<close>

definition find_all :: "string \<Rightarrow> node \<Rightarrow> node list" where
  "find_all name t = filter (\<lambda>d. tag_name d = Some name) (descendants t)"

text \<open>\<open>tag.text\<close>: the text pieces below the tag, concatenated.\<close>

fun node_string :: "node \<Rightarrow> string" where
  "node_string (NavigableString s) = s"
| "node_string (Tag n cls kids) = []"

definition get_text :: "node \<Rightarrow> string" where
  "get_text t = concat (map node_string (descendants t))"

text \<open>
  A compiled pattern against the multi-valued \<open>class\<close> attribute: bs4 tries every token,
  then the tokens joined by single spaces.
\<close>

definition class_matches :: "string \<Rightarrow> string list \<Rightarrow> bool" where
  "class_matches pat cls = (list_ex (search pat) cls \<or> search pat (join_sp cls))"

text \<open>
  \<open>re.compile(f"element element--table ({metric})")\<close>: the parentheses are a group and
  consume no character, and the three metric names hold no special character, so the
  pattern is found exactly where this literal occurs.
\<close>

definition regex :: "string \<Rightarrow> string" where
  "regex metric = ''element element--table '' @ metric"

text \<open>
  \<open>soup.find("div", {"class": regex})\<close>: the first \<open>div\<close> in document order whose class
  matches, or \<open>None\<close>.
\<close>

definition find_div :: "document \<Rightarrow> string \<Rightarrow> node option" where
  "find_div doc pat =
     (case filter (\<lambda>d. tag_name d = Some ''div'' \<and> class_matches pat (classes d))
             (doc_descendants doc) of
        [] \<Rightarrow> None
      | d # ds \<Rightarrow> Some d)"

subsection \<open>The table constructor (pandas)\<close>

text \<open>A frame: its column names and its rows; a cell is \<open>None\<close> where pandas filled it.\<close>

record table =
  columns :: "string list"
  rows :: "string option list list"

definition pad :: "nat \<Rightarrow> string list \<Rightarrow> string option list" where
  "pad k row = map Some row @ replicate (k - length row) None"

definition width :: "string list list \<Rightarrow> nat" where
  "width data = foldr max (map length data) 0"

text \<open>
  \<open>pd.DataFrame(data, columns=cols)\<close> on a list of lists: no rows give an empty frame
  with the given columns; otherwise the rows are laid out in an array as wide as the
  longest row, shorter rows filled with \<open>None\<close>, and the constructor raises
  \<open>ValueError\<close> ("n columns passed, passed data had m columns") unless that width is
  the number of column names.
\<close>

definition DataFrame :: "string list list \<Rightarrow> string list \<Rightarrow> exn + table" where
  "DataFrame data cols =
     (if data = [] then Inr \<lparr>columns = cols, rows = []\<rparr>
      else if length cols \<noteq> width data then Inl ValueError
      else Inr \<lparr>columns = cols, rows = map (pad (width data)) data\<rparr>)"

section \<open>The outside world\<close>

text \<open>
  \<open>network n url\<close> is the parsed page a GET of \<open>url\<close> returns when \<open>n\<close> requests have been
  sent before it (\<open>None\<close>: the request fails); \<open>sent\<close> logs the URLs requested so far and
  \<open>stdout\<close> the lines printed.
\<close>

record world =
  network :: "nat \<Rightarrow> string \<Rightarrow> document option"
  sent :: "string list"
  stdout :: "string list"

definition requests_get :: "string \<Rightarrow> world \<Rightarrow> document option \<times> world" where
  "requests_get url w = (network w (length (sent w)) url, w\<lparr>sent := sent w @ [url]\<rparr>)"

definition print :: "string \<Rightarrow> world \<Rightarrow> world" where
  "print line w = w\<lparr>stdout := stdout w @ [line]\<rparr>"

section \<open>\<open>_stock_performers_ws\<close>\<close>

definition stock_performers_ws :: "node \<Rightarrow> exn + table option" where
  "stock_performers_ws data =
     (let data_ws = find_all ''tr'' data in
      if length data_ws = 0 then Inr None
      else
        (case data_ws of
           [] \<Rightarrow> Inl IndexError
         | row0 # others \<Rightarrow>
             (let col_names = fragments (get_text row0);
                  stock_data = map (\<lambda>row. fragments (get_text row)) others
              in (case DataFrame stock_data col_names of
                    Inl e \<Rightarrow> Inl e
                  | Inr data_df \<Rightarrow> Inr (Some data_df)))))"

section \<open>\<open>_sp500\<close>\<close>

definition index_url :: string where
  "index_url = ''https://www.marketwatch.com/investing/index/spx''"

definition performance_by_period :: string where
  "performance_by_period = ''performance''"

definition performance_top_stocks :: string where
  "performance_top_stocks = ''ByIndexGainers''"

definition performance_bottom_stocks :: string where
  "performance_bottom_stocks = ''ByIndexDecliners''"

definition changed_message :: "string \<Rightarrow> string" where
  "changed_message metric =
     ''The web-scrape metric name seems to be changed for '' @ metric @ ''.''"

text \<open>
  The first loop: for each metric, fetch the page, parse it and look the metric's block
  up. \<open>len(ws_metric)\<close> is the number of children of a tag and raises \<open>TypeError\<close> on
  \<open>None\<close>.
\<close>

fun sp500_locate ::
  "string list \<Rightarrow> (string \<times> node) list \<Rightarrow> world \<Rightarrow>
     (exn + (string \<times> node) list option) \<times> world" where
  "sp500_locate [] ws_dict w = (Inr (Some ws_dict), w)"
| "sp500_locate (metric # rest) ws_dict w =
     (case requests_get index_url w of
        (None, w1) \<Rightarrow> (Inl ConnectionError, w1)
      | (Some doc, w1) \<Rightarrow>
          (case find_div doc (regex metric) of
             None \<Rightarrow> (Inl TypeError, w1)
           | Some ws_metric \<Rightarrow>
               if length (contents ws_metric) = 0
               then (Inr None, print (changed_message metric) w1)
               else sp500_locate rest (AList.update metric ws_metric ws_dict) w1))"

text \<open>\<open>cell.text.replace("\n", "")\<close>.\<close>

definition cell_text :: "node \<Rightarrow> string" where
  "cell_text cell = strip_nl (get_text cell)"

text \<open>
  The period loop, \<open>for i in range(0, len(data), 2)\<close>: \<open>data[i + 1]\<close> raises
  \<open>IndexError\<close> past the end; a key already present keeps its place and takes the new
  value.
\<close>

function sp500_periods ::
  "nat \<Rightarrow> node list \<Rightarrow> (string \<times> string) list \<Rightarrow> exn + (string \<times> string) list" where
  "sp500_periods i cells data_1 =
     (if i < length cells then
        (if i + 1 < length cells
         then sp500_periods (i + 2) cells
                (AList.update (cell_text (cells ! i)) (cell_text (cells ! (i + 1))) data_1)
         else Inl IndexError)
      else Inr data_1)"
  by pat_completeness auto
termination
  by (relation "measure (\<lambda>(i, cells, data_1). length cells - i)") auto

declare sp500_periods.simps [simp del]

text \<open>Lines 125 to 129: the period mapping of a located block.\<close>

definition sp500_data_1 :: "node \<Rightarrow> exn + (string \<times> string) list" where
  "sp500_data_1 block = sp500_periods 0 (find_all ''td'' block) []"

record metric_data =
  performance :: "(string \<times> string) list"
  ByIndexGainers :: "table option"
  ByIndexDecliners :: "table option"

definition subscript :: "('k \<times> 'v) list \<Rightarrow> 'k \<Rightarrow> exn + 'v" where
  "subscript d k = (case map_of d k of None \<Rightarrow> Inl KeyError | Some v \<Rightarrow> Inr v)"

definition sp500_extract :: "(string \<times> node) list \<Rightarrow> exn + metric_data option" where
  "sp500_extract ws_dict =
     (case subscript ws_dict performance_by_period of
        Inl e \<Rightarrow> Inl e
      | Inr c1 \<Rightarrow>
     (case sp500_data_1 c1 of
        Inl e \<Rightarrow> Inl e
      | Inr data_1 \<Rightarrow>
     (case subscript ws_dict performance_top_stocks of
        Inl e \<Rightarrow> Inl e
      | Inr c2 \<Rightarrow>
     (case stock_performers_ws c2 of
        Inl e \<Rightarrow> Inl e
      | Inr data_2 \<Rightarrow>
     (case subscript ws_dict performance_bottom_stocks of
        Inl e \<Rightarrow> Inl e
      | Inr c3 \<Rightarrow>
     (case stock_performers_ws c3 of
        Inl e \<Rightarrow> Inl e
      | Inr data_3 \<Rightarrow>
          Inr (Some \<lparr>performance = data_1, ByIndexGainers = data_2,
                     ByIndexDecliners = data_3\<rparr>)))))))"

definition sp500 :: "world \<Rightarrow> (exn + metric_data option) \<times> world" where
  "sp500 w =
     (case sp500_locate
             [performance_by_period, performance_top_stocks, performance_bottom_stocks] [] w of
        (Inl e, w') \<Rightarrow> (Inl e, w')
      | (Inr None, w') \<Rightarrow> (Inr None, w')
      | (Inr (Some ws_dict), w') \<Rightarrow> (sp500_extract ws_dict, w'))"

section \<open>\<open>IndexView.__init__\<close>\<close>

definition AVAILABLE_INDEX :: "string list" where
  "AVAILABLE_INDEX = [''SP500'']"

text \<open>
  The reference data of \<open>stock_market.data\<close> is a parameter: \<open>data_module name\<close> is the
  attribute of that name (a frame, column name to values), if the module has it.
\<close>

type_synonym frame = "string \<rightharpoonup> string list"

record IndexView =
  data :: frame
  sector_list :: "string set"
  summary_store :: "unit option"

definition IndexView_init ::
  "(string \<Rightarrow> string) \<Rightarrow> (string \<rightharpoonup> frame) \<Rightarrow> string \<Rightarrow> world \<Rightarrow>
     (exn + IndexView) \<times> world" where
  "IndexView_init str_upper data_module index w =
     (let index_name = str_upper index in
      if index_name \<notin> set AVAILABLE_INDEX then (Inl Warning, w)
      else
        (case data_module index_name of
           None \<Rightarrow> (Inl AttributeError, w)
         | Some sp \<Rightarrow>
             (case sp ''Sector'' of
                None \<Rightarrow> (Inl KeyError, w)
              | Some sectors \<Rightarrow>
                  (Inr \<lparr>data = sp, sector_list = set sectors, summary_store = None\<rparr>, w))))"

section \<open>Auxiliary notions for the statements\<close>

text \<open>
  The supported identifiers are the ones the test at line 26 lets through: those whose
  upper-case form is listed in \<open>AVAILABLE_INDEX\<close>, so \<open>sp500\<close> as well as \<open>SP500\<close>.
\<close>

definition supported :: "(string \<Rightarrow> string) \<Rightarrow> string \<Rightarrow> bool" where
  "supported str_upper index = (str_upper index \<in> set AVAILABLE_INDEX)"

text \<open>The text of a cell with its line-break characters removed.\<close>

abbreviation text_of :: "node \<Rightarrow> string" where
  "text_of cell \<equiv> filter (\<lambda>c. c \<noteq> CHR 0x0A) (get_text cell)"

text \<open>Pieces put together with a line break between neighbours.\<close>

fun join_nl :: "string list \<Rightarrow> string" where
  "join_nl [] = []"
| "join_nl [p] = p"
| "join_nl (p # q # qs) = p @ CHR 0x0A # join_nl (q # qs)"

text \<open>
  The block found for a metric in the page that answers the \<open>i\<close>-th request of a call
  started in the world \<open>w\<close>, if the request is answered and a block matches.
\<close>

definition located :: "world \<Rightarrow> nat \<Rightarrow> string \<Rightarrow> node option" where
  "located w i metric =
     (case network w (length (sent w) + i) index_url of
        None \<Rightarrow> None
      | Some doc \<Rightarrow> find_div doc (regex metric))"

text \<open>Consecutive pairs of a list; a trailing single element is left out.\<close>

fun pair_up :: "'a list \<Rightarrow> ('a \<times> 'a) list" where
  "pair_up (k # v # rest) = (k, v) # pair_up rest"
| "pair_up [k] = []"
| "pair_up [] = []"

text \<open>Storing pairs one after the other, as repeated \<open>d[k] = v\<close> does.\<close>

definition store :: "(string \<times> string) list \<Rightarrow> (string \<times> string) list \<Rightarrow> (string \<times> string) list" where
  "store ps d = fold (\<lambda>(k, v). AList.update k v) ps d"

subsection \<open>Example markup\<close>

text \<open>
  A cell holding a text, the line break between two tags, a row of cells laid out one per
  line, and a block carrying the class of a metric.
\<close>

definition td :: "string \<Rightarrow> node" where
  "td s = Tag ''td'' [] [NavigableString s]"

definition nl :: node where
  "nl = NavigableString [newline]"

definition tr :: "string list \<Rightarrow> node" where
  "tr cells = Tag ''tr'' [] (nl # concat (map (\<lambda>s. [td s, nl]) cells))"

definition metric_div :: "string \<Rightarrow> node list \<Rightarrow> node" where
  "metric_div metric kids = Tag ''div'' [''element'', ''element--table'', metric] kids"

subsection \<open>Example pages\<close>

text \<open>
  A page with the three blocks of the index page: the period table, the gainers table and
  the decliners table.
\<close>

definition page :: "node list \<Rightarrow> document" where
  "page blocks = [Tag ''html'' [] [Tag ''body'' [] blocks]]"

definition period_block :: node where
  "period_block = metric_div ''performance''
     [Tag ''table'' [] [tr [''1 Day'', ''+1.2%''], tr [''1 Year'', ''+15.0%'']]]"

definition gainers_rows :: "node list" where
  "gainers_rows = [Tag ''table'' [] [tr [''Name'', ''Chg''], tr [''AAA'', ''+3%''], tr [''BBB'', ''+2%'']]]"

definition decliners_block :: node where
  "decliners_block = metric_div ''ByIndexDecliners''
     [Tag ''table'' [] [tr [''Name'', ''Chg''], tr [''CCC'', ''-3%'']]]"

definition good_page :: document where
  "good_page = page [period_block, metric_div ''ByIndexGainers'' gainers_rows, decliners_block]"

text \<open>The same page with a gainers block that holds a notice instead of a table.\<close>

definition no_rows_page :: document where
  "no_rows_page =
     page [period_block, metric_div ''ByIndexGainers'' [NavigableString ''No data''], decliners_block]"

text \<open>The same page after the site renamed the class of the gainers block.\<close>

definition renamed_page :: document where
  "renamed_page =
     page [period_block, Tag ''div'' [''element'', ''element--table'', ''TopGainers''] gainers_rows,
           decliners_block]"

text \<open>A world in which every request is answered with the same page.\<close>

definition serve :: "document \<Rightarrow> world" where
  "serve doc = \<lparr>network = (\<lambda>n url. Some doc), sent = [], stdout = []\<rparr>"


section \<open>Facts about the model\<close>

lemma store_simps [simp]:
  "store [] d = d"
  "store ((k, v) # ps) d = store ps (AList.update k v d)"
  by (simp_all add: store_def)

lemma periods_even:
  "i \<le> length cells \<Longrightarrow> even (length cells - i) \<Longrightarrow>
   sp500_periods i cells d = Inr (store (pair_up (map cell_text (drop i cells))) d)"
proof (induction i cells d rule: sp500_periods.induct)
  case (1 i cells d)
  show ?case
  proof (cases "i < length cells")
    case False
    then show ?thesis by (simp add: sp500_periods.simps)
  next
    case True
    with "1.prems" have lt: "i + 1 < length cells"
      by (cases "length cells - i = 1") auto
    have d1: "drop i cells = cells ! i # cells ! (i + 1) # drop (i + 2) cells"
      using True lt by (simp add: Cons_nth_drop_Suc)
    have ev: "even (length cells - (i + 2))"
      using "1.prems" lt by simp
    have "sp500_periods i cells d =
        sp500_periods (i + 2) cells
          (AList.update (cell_text (cells ! i)) (cell_text (cells ! (i + 1))) d)"
      using True lt by (subst sp500_periods.simps) simp
    also have "\<dots> = Inr (store (pair_up (map cell_text (drop (i + 2) cells)))
          (AList.update (cell_text (cells ! i)) (cell_text (cells ! (i + 1))) d))"
      using "1.IH" [OF True lt] lt ev by simp
    finally show ?thesis by (simp add: d1)
  qed
qed

lemma periods_odd:
  "odd (length cells - i) \<Longrightarrow> sp500_periods i cells d = Inl IndexError"
proof (induction i cells d rule: sp500_periods.induct)
  case (1 i cells d)
  from "1.prems" have True: "i < length cells"
    by (cases "i < length cells") auto
  show ?case
  proof (cases "i + 1 < length cells")
    case False
    then show ?thesis using True by (subst sp500_periods.simps) simp
  next
    case lt: True
    have od: "odd (length cells - (i + 2))"
      using "1.prems" lt by simp
    show ?thesis
      using "1.IH" [OF True lt od] True lt by (subst sp500_periods.simps) simp
  qed
qed

lemma pair_up_length: "length (pair_up xs) = length xs div 2"
  by (induction xs rule: pair_up.induct) simp_all

lemma pair_up_nth:
  "j < length xs div 2 \<Longrightarrow> pair_up xs ! j = (xs ! (2 * j), xs ! (2 * j + 1))"
proof (induction xs arbitrary: j rule: pair_up.induct)
  case (1 k v rest)
  then show ?case by (cases j) simp_all
qed simp_all

lemma map_of_store: "map_of (store ps d) = map_of d ++ map_of (rev ps)"
proof (induction ps arbitrary: d)
  case Nil
  then show ?case by simp
next
  case (Cons p ps)
  obtain k v where p: "p = (k, v)" by (cases p)
  have "map_of (store (p # ps) d) = (map_of d)(k \<mapsto> v) ++ map_of (rev ps)"
    by (simp add: p Cons.IH) (rule arg_cong [where f = "\<lambda>m. m ++ map_of (rev ps)"], rule update_conv')
  also have "\<dots> = map_of d ++ map_of (rev (p # ps))"
    by (rule ext) (simp add: p map_of_append map_add_def split: option.splits)
  finally show ?case .
qed

lemma update_fresh: "k \<notin> fst ` set d \<Longrightarrow> AList.update k v d = d @ [(k, v)]"
  by (induction d) auto

lemma store_distinct: "distinct (map fst (d @ ps)) \<Longrightarrow> store ps d = d @ ps"
proof (induction ps arbitrary: d)
  case Nil
  then show ?case by simp
next
  case (Cons p ps)
  obtain k v where p: "p = (k, v)" by (cases p)
  from Cons.prems have fresh: "k \<notin> fst ` set d" by (auto simp: p)
  have "distinct (map fst ((d @ [(k, v)]) @ ps))" using Cons.prems by (simp add: p)
  from Cons.IH [OF this] show ?case by (simp add: p update_fresh [OF fresh])
qed

lemma set_update_subset: "set (AList.update k v d) \<subseteq> insert (k, v) (set d)"
  by (induction d) auto

lemma set_store_subset: "set (store ps d) \<subseteq> set d \<union> set ps"
proof (induction ps arbitrary: d)
  case Nil
  then show ?case by simp
next
  case (Cons p ps)
  obtain k v where p: "p = (k, v)" by (cases p)
  show ?case using Cons.IH [of "AList.update k v d"] set_update_subset [of k v d]
    by (auto simp: p)
qed

lemma keys_store: "fst ` set (store ps d) = fst ` set d \<union> fst ` set ps"
proof -
  have "dom (map_of (store ps d)) = dom (map_of d) \<union> dom (map_of (rev ps))"
    by (simp add: map_of_store Un_commute)
  then show ?thesis by (simp add: dom_map_of_conv_image_fst)
qed

lemma distinct_store: "distinct (map fst d) \<Longrightarrow> distinct (map fst (store ps d))"
proof (induction ps arbitrary: d)
  case Nil
  then show ?case by simp
next
  case (Cons p ps)
  obtain k v where p: "p = (k, v)" by (cases p)
  show ?case using Cons by (simp add: p distinct_update)
qed

lemma map_of_rev_last:
  "j < length ps \<Longrightarrow> \<forall>j'. j < j' \<and> j' < length ps \<longrightarrow> fst (ps ! j') \<noteq> fst (ps ! j) \<Longrightarrow>
   map_of (rev ps) (fst (ps ! j)) = Some (snd (ps ! j))"
proof (induction ps rule: rev_induct)
  case Nil
  then show ?case by simp
next
  case (snoc q qs)
  show ?case
  proof (cases "j = length qs")
    case True
    then show ?thesis by (cases q) simp
  next
    case False
    with snoc.prems have lt: "j < length qs" by simp
    have ne: "fst q \<noteq> fst (qs ! j)"
      using snoc.prems(2) [rule_format, of "length qs"] lt by (simp add: nth_append)
    have later: "\<forall>j'. j < j' \<and> j' < length qs \<longrightarrow> fst (qs ! j') \<noteq> fst (qs ! j)"
    proof (intro allI impI)
      fix j' assume a: "j < j' \<and> j' < length qs"
      then show "fst (qs ! j') \<noteq> fst (qs ! j)"
        using snoc.prems(2) [rule_format, of j'] lt by (simp add: nth_append)
    qed
    from snoc.IH [OF lt later] ne lt show ?thesis
      by (cases q) (auto simp: nth_append)
  qed
qed

lemma find_all_Tag:
  "find_all name (Tag n cls kids) =
     concat (map (\<lambda>k. (if tag_name k = Some name then [k] else []) @ find_all name k) kids)"
  by (induction kids) (simp_all add: find_all_def)

lemma find_all_String: "find_all name (NavigableString s) = []"
  by (simp add: find_all_def)

lemma get_text_Tag: "get_text (Tag n cls kids) = concat (map (\<lambda>k. node_string k @ get_text k) kids)"
  by (induction kids) (simp_all add: get_text_def)

lemma get_text_String: "get_text (NavigableString s) = []"
  by (simp add: get_text_def)

lemmas eval_simps = find_all_Tag find_all_String get_text_Tag get_text_String
  td_def nl_def tr_def metric_div_def cell_text_def strip_nl_def newline_def fragments_def

section \<open>The period parser\<close>

text \<open>
  Claim C2 says that an odd or zero number of cells makes the period parser fail with a
  StructureMismatch instead of raising or returning an empty mapping. The code has no such
  check: one unpaired cell raises \<open>IndexError\<close> at \<open>data[i + 1]\<close>, and a block without
  cells gives the empty mapping.
\<close>

theorem period_parser_odd_or_empty_cex:
  "sp500_data_1 (metric_div ''performance'' [NavigableString ''n/a'']) = Inr [] \<and>
   sp500_data_1 (metric_div ''performance'' [td ''1 Day'']) = Inl IndexError"
  by (simp add: sp500_data_1_def eval_simps sp500_periods.simps)

text \<open>
  Claim C2 as amended: for every located block, an odd number of \<open>td\<close> cells makes the
  period parser raise \<open>IndexError\<close>, and no cell at all makes it return the empty mapping.
\<close>

theorem period_parser_odd_or_empty:
  "(odd (length (find_all ''td'' block)) \<longrightarrow> sp500_data_1 block = Inl IndexError) \<and>
   (find_all ''td'' block = [] \<longrightarrow> sp500_data_1 block = Inr [])"
proof (intro conjI impI)
  assume "odd (length (find_all ''td'' block))"
  then show "sp500_data_1 block = Inl IndexError"
    by (simp add: sp500_data_1_def periods_odd)
next
  assume "find_all ''td'' block = []"
  then show "sp500_data_1 block = Inr []"
    by (subst sp500_data_1_def, subst sp500_periods.simps) simp
qed

theorem period_parser_odd_or_empty_witness:
  "odd (length (find_all ''td'' (metric_div ''performance'' [td ''1 Day'', td ''+1.2%'', td ''1 Year'']))) \<and>
   sp500_data_1 (metric_div ''performance'' [td ''1 Day'', td ''+1.2%'', td ''1 Year'']) = Inl IndexError \<and>
   find_all ''td'' (metric_div ''performance'' [NavigableString ''n/a'']) = [] \<and>
   sp500_data_1 (metric_div ''performance'' [NavigableString ''n/a'']) = Inr []"
proof -
  have odd3: "odd (length (find_all ''td'' (metric_div ''performance'' [td ''1 Day'', td ''+1.2%'', td ''1 Year''])))"
    by (simp add: eval_simps)
  have none: "find_all ''td'' (metric_div ''performance'' [NavigableString ''n/a'']) = []"
    by (simp add: eval_simps)
  from period_parser_odd_or_empty [of "metric_div ''performance'' [td ''1 Day'', td ''+1.2%'', td ''1 Year'']"]
    period_parser_odd_or_empty [of "metric_div ''performance'' [NavigableString ''n/a'']"]
    odd3 none
  show ?thesis by blast
qed

lemma pairs_index:
  "pair_up xs = map (\<lambda>j. (xs ! (2 * j), xs ! (2 * j + 1))) [0..<length xs div 2]"
  by (rule nth_equalityI) (simp_all add: pair_up_length pair_up_nth)

lemma data_1_even:
  assumes "find_all ''td'' block = cells" "even (length cells)"
  shows "sp500_data_1 block = Inr (store (pair_up (map cell_text cells)) [])"
  using assms periods_even [of 0 cells "[]"] by (simp add: sp500_data_1_def)

lemma cell_text_eq: "cell_text cell = text_of cell"
  by (simp add: cell_text_def strip_nl_def newline_def)

lemma data_1_pairs:
  assumes "find_all ''td'' block = cells" and "even (length cells)"
  shows "(\<exists>m. sp500_data_1 block = Inr m
      \<and> fst ` set m = {cell_text (cells ! (2 * j)) | j. 2 * j < length cells}
      \<and> (\<forall>(k, v) \<in> set m. \<exists>j. 2 * j + 1 < length cells
             \<and> k = cell_text (cells ! (2 * j)) \<and> v = cell_text (cells ! (2 * j + 1)))
      \<and> (distinct (map (\<lambda>j. cell_text (cells ! (2 * j))) [0..<length cells div 2]) \<longrightarrow>
           m = map (\<lambda>j. (cell_text (cells ! (2 * j)), cell_text (cells ! (2 * j + 1))))
                 [0..<length cells div 2]))
    \<and> sp500_data_1 (Tag ''table'' [] (map td [''1 Day'', ''+1.2%'', ''1 Year'', ''+15.0%'']))
        = Inr [(''1 Day'', ''+1.2%''), (''1 Year'', ''+15.0%'')]"
proof -
  define xs where "xs = map cell_text cells"
  define n where "n = length cells div 2"
  have len: "length xs = length cells" by (simp add: xs_def)
  have ps: "pair_up xs = map (\<lambda>j. (cell_text (cells ! (2 * j)), cell_text (cells ! (2 * j + 1)))) [0..<n]"
    using assms(2) by (subst pairs_index) (auto simp: xs_def n_def elim!: evenE)
  let ?m = "store (pair_up xs) []"
  have res: "sp500_data_1 block = Inr ?m"
    using data_1_even [OF assms] by (simp add: xs_def)
  have idx: "(2 * j < length cells) = (j < n)" for j
    using assms(2) by (auto simp: n_def elim!: evenE)
  have idx': "(2 * j + 1 < length cells) = (j < n)" for j
    using assms(2) by (auto simp: n_def elim!: evenE)
  have keys: "fst ` set ?m = {cell_text (cells ! (2 * j)) | j. 2 * j < length cells}"
    by (simp add: keys_store ps idx image_iff) force
  have entries: "\<forall>(k, v) \<in> set ?m. \<exists>j. 2 * j + 1 < length cells
             \<and> k = cell_text (cells ! (2 * j)) \<and> v = cell_text (cells ! (2 * j + 1))"
  proof (clarify)
    fix k v assume "(k, v) \<in> set ?m"
    with set_store_subset [of "pair_up xs" "[]"] have "(k, v) \<in> set (pair_up xs)"
      by auto
    then obtain j where j: "j < n" "k = cell_text (cells ! (2 * j))"
        "v = cell_text (cells ! (2 * j + 1))"
      by (auto simp: ps)
    from j(1) have "2 * j + 1 < length cells" by (simp only: idx')
    with j(2,3) show "\<exists>j. 2 * j + 1 < length cells
             \<and> k = cell_text (cells ! (2 * j)) \<and> v = cell_text (cells ! (2 * j + 1))"
      by blast
  qed
  have dist: "distinct (map (\<lambda>j. cell_text (cells ! (2 * j))) [0..<length cells div 2]) \<longrightarrow>
           ?m = map (\<lambda>j. (cell_text (cells ! (2 * j)), cell_text (cells ! (2 * j + 1))))
                 [0..<length cells div 2]"
  proof
    assume "distinct (map (\<lambda>j. cell_text (cells ! (2 * j))) [0..<length cells div 2])"
    then have "distinct (map fst ([] @ pair_up xs))"
      by (simp add: ps n_def comp_def)
    from store_distinct [OF this] show "?m = map (\<lambda>j. (cell_text (cells ! (2 * j)), cell_text (cells ! (2 * j + 1))))
                 [0..<length cells div 2]"
      by (simp add: ps n_def)
  qed
  have ex: "sp500_data_1 (Tag ''table'' [] (map td [''1 Day'', ''+1.2%'', ''1 Year'', ''+15.0%'']))
        = Inr [(''1 Day'', ''+1.2%''), (''1 Year'', ''+15.0%'')]"
    by (simp add: sp500_data_1_def eval_simps sp500_periods.simps)
  from res keys entries dist ex show ?thesis by blast
qed

text \<open>
  Claim C6: for an even number of cells the period mapping is built pairwise. Its keys are
  the texts of the even-indexed cells with the line-break characters removed, every entry
  pairs such a key with the text of the cell right after it, line breaks removed as well,
  and when the labels are all different the mapping is the list of these pairs in
  document order. The cells \<open>1 Day, +1.2%, 1 Year, +15.0%\<close> give
  \<open>1 Day \<mapsto> +1.2%, 1 Year \<mapsto> +15.0%\<close>.
\<close>

theorem period_parser_pairwise:
  assumes "find_all ''td'' block = cells" and "even (length cells)"
  shows "(\<exists>m. sp500_data_1 block = Inr m
      \<and> fst ` set m = {text_of (cells ! (2 * j)) | j. 2 * j < length cells}
      \<and> (\<forall>(k, v) \<in> set m. \<exists>j. 2 * j + 1 < length cells
             \<and> k = text_of (cells ! (2 * j)) \<and> v = text_of (cells ! (2 * j + 1)))
      \<and> (distinct (map (\<lambda>j. text_of (cells ! (2 * j))) [0..<length cells div 2]) \<longrightarrow>
           m = map (\<lambda>j. (text_of (cells ! (2 * j)), text_of (cells ! (2 * j + 1))))
                 [0..<length cells div 2]))
    \<and> sp500_data_1 (Tag ''table'' [] (map td [''1 Day'', ''+1.2%'', ''1 Year'', ''+15.0%'']))
        = Inr [(''1 Day'', ''+1.2%''), (''1 Year'', ''+15.0%'')]"
  using data_1_pairs [OF assms] unfolding cell_text_eq .

theorem period_parser_pairwise_witness:
  "find_all ''td'' (Tag ''table'' [] (map td [''\<newline>5 Day\<newline>'', ''-0.4%\<newline>'']))
     = map td [''\<newline>5 Day\<newline>'', ''-0.4%\<newline>''] \<and>
   even (length (map td [''\<newline>5 Day\<newline>'', ''-0.4%\<newline>''])) \<and>
   sp500_data_1 (Tag ''table'' [] (map td [''\<newline>5 Day\<newline>'', ''-0.4%\<newline>'']))
     = Inr [(''5 Day'', ''-0.4%'')]"
proof -
  let ?cells = "map td [''\<newline>5 Day\<newline>'', ''-0.4%\<newline>'']"
  let ?block = "Tag ''table'' [] ?cells"
  have cells: "find_all ''td'' ?block = ?cells"
    by (simp add: eval_simps)
  have ev: "even (length ?cells)" by simp
  have one: "[0..<length ?cells div 2] = [0]" by simp
  from period_parser_pairwise [OF cells ev]
  obtain m where m: "sp500_data_1 ?block = Inr m"
    and d: "distinct (map (\<lambda>j. text_of (?cells ! (2 * j))) [0..<length ?cells div 2]) \<longrightarrow>
           m = map (\<lambda>j. (text_of (?cells ! (2 * j)), text_of (?cells ! (2 * j + 1))))
                 [0..<length ?cells div 2]"
    by blast
  from d have "m = [(''5 Day'', ''-0.4%'')]"
    unfolding one by (simp add: get_text_Tag get_text_String td_def)
  with m cells ev show ?thesis by blast
qed

text \<open>
  Claim C8: last write wins. For an even number of cells, a label that does not occur
  again as a later key is mapped to the value that follows it, and the mapping holds one
  entry per key. The cells \<open>X, 1, X, 2\<close> give \<open>X \<mapsto> 2\<close>.
\<close>

theorem period_parser_last_write_wins:
  assumes "find_all ''td'' block = cells" and "even (length cells)"
    and "2 * j < length cells"
    and "\<forall>j'. j < j' \<and> 2 * j' < length cells \<longrightarrow>
           cell_text (cells ! (2 * j')) \<noteq> cell_text (cells ! (2 * j))"
  shows "(\<exists>m. sp500_data_1 block = Inr m \<and> distinct (map fst m)
      \<and> map_of m (cell_text (cells ! (2 * j))) = Some (cell_text (cells ! (2 * j + 1))))
    \<and> sp500_data_1 (Tag ''table'' [] (map td [''X'', ''1'', ''X'', ''2''])) = Inr [(''X'', ''2'')]"
proof -
  define xs where "xs = map cell_text cells"
  define ps where "ps = pair_up xs"
  have n: "length ps = length cells div 2" by (simp add: ps_def xs_def pair_up_length)
  have jn: "j < length ps" using assms(2,3) by (auto simp: n elim!: evenE)
  have nth: "ps ! i = (cell_text (cells ! (2 * i)), cell_text (cells ! (2 * i + 1)))"
    if "i < length ps" for i
    using that assms(2) by (auto simp: ps_def pair_up_nth pair_up_length xs_def elim!: evenE)
  have later: "\<forall>j'. j < j' \<and> j' < length ps \<longrightarrow> fst (ps ! j') \<noteq> fst (ps ! j)"
  proof (intro allI impI)
    fix j' assume a: "j < j' \<and> j' < length ps"
    then have "2 * j' < length cells" using assms(2) by (auto simp: n elim!: evenE)
    with a assms(4) show "fst (ps ! j') \<noteq> fst (ps ! j)" by (simp add: nth jn)
  qed
  let ?m = "store ps []"
  have res: "sp500_data_1 block = Inr ?m"
    using data_1_even [OF assms(1,2)] by (simp add: xs_def ps_def)
  have d: "distinct (map fst ?m)" by (rule distinct_store) simp
  have "map_of ?m (fst (ps ! j)) = Some (snd (ps ! j))"
    using map_of_rev_last [OF jn later] by (simp add: map_of_store)
  then have v: "map_of ?m (cell_text (cells ! (2 * j))) = Some (cell_text (cells ! (2 * j + 1)))"
    by (simp add: nth jn)
  have ex: "sp500_data_1 (Tag ''table'' [] (map td [''X'', ''1'', ''X'', ''2''])) = Inr [(''X'', ''2'')]"
    by (simp add: sp500_data_1_def eval_simps sp500_periods.simps)
  from res d v ex show ?thesis by blast
qed

theorem period_parser_last_write_wins_witness:
  "find_all ''td'' (Tag ''table'' [] (map td [''A'', ''1'', ''B'', ''2'', ''A'', ''3'']))
     = map td [''A'', ''1'', ''B'', ''2'', ''A'', ''3''] \<and>
   even (length (map td [''A'', ''1'', ''B'', ''2'', ''A'', ''3''])) \<and>
   (\<exists>m. sp500_data_1 (Tag ''table'' [] (map td [''A'', ''1'', ''B'', ''2'', ''A'', ''3''])) = Inr m
      \<and> distinct (map fst m) \<and> map_of m ''A'' = Some ''3'')"
proof -
  let ?cells = "map td [''A'', ''1'', ''B'', ''2'', ''A'', ''3'']"
  let ?block = "Tag ''table'' [] ?cells"
  have cells: "find_all ''td'' ?block = ?cells"
    by (simp add: eval_simps)
  have ev: "even (length ?cells)" by simp
  have len: "length ?cells = 6" by simp
  have j: "2 * 2 < length ?cells" by simp
  have later: "\<forall>j'. 2 < j' \<and> 2 * j' < length ?cells \<longrightarrow>
      cell_text (?cells ! (2 * j')) \<noteq> cell_text (?cells ! (2 * 2))"
  proof (intro allI impI)
    fix j' :: nat
    assume "2 < j' \<and> 2 * j' < length ?cells"
    then have "2 < j' \<and> 2 * j' < 6" by (simp only: len)
    then have False by arith
    then show "cell_text (?cells ! (2 * j')) \<noteq> cell_text (?cells ! (2 * 2))"
      by (rule FalseE)
  qed
  have key: "cell_text (?cells ! (2 * 2)) = ''A''" by (simp add: eval_simps)
  have val: "cell_text (?cells ! (2 * 2 + 1)) = ''3''" by (simp add: eval_simps)
  from period_parser_last_write_wins [OF cells ev j later]
  have "\<exists>m. sp500_data_1 ?block = Inr m \<and> distinct (map fst m)
      \<and> map_of m (cell_text (?cells ! (2 * 2))) = Some (cell_text (?cells ! (2 * 2 + 1)))"
    by (rule conjunct1)
  then have "\<exists>m. sp500_data_1 ?block = Inr m \<and> distinct (map fst m)
      \<and> map_of m ''A'' = Some ''3''"
    by (simp only: key val)
  with cells ev show ?thesis by blast
qed

section \<open>The table extractor\<close>

lemma performers_rows:
  "find_all ''tr'' block = row0 # others \<Longrightarrow>
   stock_performers_ws block =
     (case DataFrame (map (\<lambda>row. fragments (get_text row)) others) (fragments (get_text row0)) of
        Inl e \<Rightarrow> Inl e
      | Inr data_df \<Rightarrow> Inr (Some data_df))"
  by (simp add: stock_performers_ws_def)

lemma width_upper: "r \<in> set rs \<Longrightarrow> length r \<le> width rs"
  by (induction rs) (auto simp: width_def)

lemma width_attained: "rs \<noteq> [] \<Longrightarrow> \<exists>r\<in>set rs. length r = width rs"
proof (induction rs)
  case Nil
  then show ?case by simp
next
  case (Cons r rs)
  show ?case
  proof (cases "rs = []")
    case True
    then show ?thesis by (simp add: width_def)
  next
    case False
    with Cons.IH obtain r' where r': "r' \<in> set rs" "length r' = width rs" by blast
    have w: "width (r # rs) = max (length r) (width rs)" by (simp add: width_def)
    show ?thesis
    proof (cases "length r \<le> width rs")
      case True
      with w r' show ?thesis by (auto simp: max_def)
    next
      case False
      with w show ?thesis by (auto simp: max_def)
    qed
  qed
qed

lemma width_eq_iff:
  assumes "rs \<noteq> []"
  shows "(width rs = N) = ((\<exists>r\<in>set rs. length r = N) \<and> (\<forall>r\<in>set rs. length r \<le> N))"
proof
  assume "width rs = N"
  with width_attained [OF assms] width_upper [of _ rs]
  show "(\<exists>r\<in>set rs. length r = N) \<and> (\<forall>r\<in>set rs. length r \<le> N)" by auto
next
  assume a: "(\<exists>r\<in>set rs. length r = N) \<and> (\<forall>r\<in>set rs. length r \<le> N)"
  then obtain r where r: "r \<in> set rs" "length r = N" by blast
  from width_attained [OF assms] obtain r' where r': "r' \<in> set rs" "length r' = width rs"
    by blast
  from a r' have "width rs \<le> N" by auto
  moreover from width_upper [OF r(1)] r(2) have "N \<le> width rs" by simp
  ultimately show "width rs = N" by simp
qed

text \<open>
  Claim C7: a block in which \<open>find_all("tr")\<close> finds no row makes the table extractor
  return \<open>None\<close>, its failure value, and no table.
\<close>

theorem table_extractor_no_rows:
  "find_all ''tr'' block = [] \<Longrightarrow> stock_performers_ws block = Inr None"
  by (simp add: stock_performers_ws_def)

theorem table_extractor_no_rows_witness:
  "find_all ''tr'' (metric_div ''ByIndexGainers'' [NavigableString ''No data'']) = [] \<and>
   stock_performers_ws (metric_div ''ByIndexGainers'' [NavigableString ''No data'']) = Inr None"
proof -
  have h: "find_all ''tr'' (metric_div ''ByIndexGainers'' [NavigableString ''No data'']) = []"
    by (simp add: eval_simps)
  from h table_extractor_no_rows [OF h] show ?thesis by (rule conjI)
qed

lemma split_nl_plain: "newline \<notin> set p \<Longrightarrow> split_nl p = [p]"
  by (induction p) auto

lemma split_nl_break: "newline \<notin> set p \<Longrightarrow> split_nl (p @ newline # r) = p # split_nl r"
  by (induction p) auto

lemma split_join:
  "\<forall>p\<in>set ps. newline \<notin> set p \<Longrightarrow> ps \<noteq> [] \<Longrightarrow> split_nl (join_nl ps) = ps"
proof (induction ps rule: join_nl.induct)
  case 1
  then show ?case by simp
next
  case (2 p)
  then show ?case by (simp add: split_nl_plain)
next
  case (3 p q qs)
  from "3.prems" have p: "newline \<notin> set p" by simp
  have "split_nl (join_nl (p # q # qs)) = split_nl (p @ newline # join_nl (q # qs))"
    by (simp add: newline_def)
  also have "\<dots> = p # split_nl (join_nl (q # qs))"
    using p by (rule split_nl_break)
  also have "\<dots> = p # q # qs"
    using 3 by simp
  finally show ?case .
qed

lemma fragments_join:
  assumes "CHR 0x0A \<notin> set (concat ps)"
  shows "fragments (join_nl ps) = filter (\<lambda>p. p \<noteq> []) ps"
proof (cases "ps = []")
  case True
  then show ?thesis by (simp add: fragments_def)
next
  case False
  from assms have "\<forall>p\<in>set ps. newline \<notin> set p" by (auto simp: newline_def)
  from split_join [OF this False] show ?thesis by (simp add: fragments_def)
qed

lemma join_split: "join_nl (split_nl s) = s \<and> CHR 0x0A \<notin> set (concat (split_nl s))"
proof (induction s)
  case Nil
  then show ?case by simp
next
  case (Cons c s)
  show ?case
  proof (cases "split_nl s")
    case Nil
    with Cons show ?thesis by simp
  next
    case (Cons p ps)
    with Cons.IH show ?thesis
      by (cases ps) (auto simp: newline_def)
  qed
qed

text \<open>
  Claim C5: let the text of the first row of a block, split at its line breaks, have \<open>N\<close>
  non-empty pieces, and the text of each of the \<open>k\<close> rows after it likewise. Then the
  table extractor returns a table whose header is the non-empty pieces of the first row
  (\<open>N\<close> names) and whose \<open>k\<close> data rows are the non-empty pieces of the other rows, each
  of length \<open>N\<close>; empty pieces are dropped, and no cell is empty or filled in. Every text
  has exactly one such splitting (\<open>join_split\<close>, \<open>split_join\<close>).
\<close>

theorem table_extractor_rectangular:
  assumes "find_all ''tr'' block = row0 # others"
    and "join_nl pieces0 = get_text row0" and "CHR 0x0A \<notin> set (concat pieces0)"
    and "length (filter (\<lambda>p. p \<noteq> []) pieces0) = N"
    and "list_all2 (\<lambda>row ps. join_nl ps = get_text row \<and> CHR 0x0A \<notin> set (concat ps)
            \<and> length (filter (\<lambda>p. p \<noteq> []) ps) = N) others pieces"
  shows "\<exists>t. stock_performers_ws block = Inr (Some t)
      \<and> columns t = filter (\<lambda>p. p \<noteq> []) pieces0
      \<and> rows t = map (\<lambda>ps. map Some (filter (\<lambda>p. p \<noteq> []) ps)) pieces
      \<and> length (columns t) = N \<and> length (rows t) = length others
      \<and> (\<forall>r\<in>set (rows t). length r = N \<and> None \<notin> set r \<and> Some [] \<notin> set r)
      \<and> [] \<notin> set (columns t)"
proof -
  let ?ne = "\<lambda>p::string. p \<noteq> []"
  let ?cols = "fragments (get_text row0)"
  let ?data = "map (\<lambda>row. fragments (get_text row)) others"
  have cols: "?cols = filter ?ne pieces0"
    using fragments_join [OF assms(3)] assms(2) by simp
  have data: "?data = map (filter ?ne) pieces"
    using assms(5)
  proof (induction others pieces rule: list_all2_induct)
    case Nil
    then show ?case by simp
  next
    case (Cons row others ps pieces)
    then show ?case using fragments_join [of ps] by simp
  qed
  have lens: "\<forall>r\<in>set ?data. length r = N"
    unfolding data using assms(5)
    by (induction others pieces rule: list_all2_induct) simp_all
  have len: "length pieces = length others"
    using assms(5) by (simp add: list_all2_lengthD)
  let ?t = "\<lparr>columns = filter ?ne pieces0,
             rows = map (\<lambda>ps. map Some (filter ?ne ps)) pieces\<rparr>"
  have frame: "DataFrame ?data ?cols = Inr ?t"
  proof (cases "others = []")
    case True
    with len show ?thesis by (simp add: DataFrame_def cols)
  next
    case False
    then have ne: "?data \<noteq> []" by simp
    from False obtain r where "r \<in> set others" by (cases others) auto
    with lens have w: "width ?data = N"
      by (subst width_eq_iff [OF ne]) auto
    have "map (pad N) ?data = map (\<lambda>ps. map Some (filter ?ne ps)) pieces"
      using lens by (simp add: data pad_def)
    with w ne assms(4) cols show ?thesis by (simp add: DataFrame_def)
  qed
  have res: "stock_performers_ws block = Inr (Some ?t)"
    by (simp add: performers_rows [OF assms(1)] frame)
  have cells: "\<forall>r\<in>set (rows ?t). length r = N \<and> None \<notin> set r \<and> Some [] \<notin> set r"
    using lens by (auto simp: data)
  from res cells assms(4) len show ?thesis
    by (intro exI [of _ ?t]) simp
qed

theorem table_extractor_rectangular_witness:
  "find_all ''tr'' (Tag ''table'' [] [tr [''Name'', ''Chg''], tr [''AAA'', ''+3%''], tr [''BBB'', ''+2%'']])
     = tr [''Name'', ''Chg''] # [tr [''AAA'', ''+3%''], tr [''BBB'', ''+2%'']] \<and>
   join_nl ['''', ''Name'', ''Chg'', ''''] = get_text (tr [''Name'', ''Chg'']) \<and>
   join_nl ['''', ''AAA'', ''+3%'', ''''] = get_text (tr [''AAA'', ''+3%'']) \<and>
   join_nl ['''', ''BBB'', ''+2%'', ''''] = get_text (tr [''BBB'', ''+2%'']) \<and>
   stock_performers_ws
       (Tag ''table'' [] [tr [''Name'', ''Chg''], tr [''AAA'', ''+3%''], tr [''BBB'', ''+2%'']])
     = Inr (Some \<lparr>columns = [''Name'', ''Chg''],
                    rows = [[Some ''AAA'', Some ''+3%''], [Some ''BBB'', Some ''+2%'']]\<rparr>)"
proof -
  let ?others = "[tr [''AAA'', ''+3%''], tr [''BBB'', ''+2%'']]"
  let ?block = "Tag ''table'' [] (tr [''Name'', ''Chg''] # ?others)"
  let ?pieces = "[['''', ''AAA'', ''+3%'', ''''], ['''', ''BBB'', ''+2%'', '''']]"
  have r: "find_all ''tr'' ?block = tr [''Name'', ''Chg''] # ?others"
    by (simp add: eval_simps)
  have j0: "join_nl ['''', ''Name'', ''Chg'', ''''] = get_text (tr [''Name'', ''Chg''])"
    by (simp add: eval_simps)
  have j1: "join_nl ['''', ''AAA'', ''+3%'', ''''] = get_text (tr [''AAA'', ''+3%''])"
    by (simp add: eval_simps)
  have j2: "join_nl ['''', ''BBB'', ''+2%'', ''''] = get_text (tr [''BBB'', ''+2%''])"
    by (simp add: eval_simps)
  have b0: "CHR 0x0A \<notin> set (concat ['''', ''Name'', ''Chg'', ''''])" by simp
  have n: "length (filter (\<lambda>p. p \<noteq> []) ['''', ''Name'', ''Chg'', '''']) = 2" by simp
  have all: "list_all2 (\<lambda>row ps. join_nl ps = get_text row \<and> CHR 0x0A \<notin> set (concat ps)
            \<and> length (filter (\<lambda>p. p \<noteq> []) ps) = 2) ?others ?pieces"
    using j1 j2 by simp
  from table_extractor_rectangular [OF r j0 b0 n all]
  obtain t where t: "stock_performers_ws ?block = Inr (Some t)"
    "columns t = filter (\<lambda>p. p \<noteq> []) ['''', ''Name'', ''Chg'', '''']"
    "rows t = map (\<lambda>ps. map Some (filter (\<lambda>p. p \<noteq> []) ps)) ?pieces"
    by blast
  from t(2,3) have "t = \<lparr>columns = [''Name'', ''Chg''],
                    rows = [[Some ''AAA'', Some ''+3%''], [Some ''BBB'', Some ''+2%'']]\<rparr>"
    by (cases t) simp
  with t(1) r j0 j1 j2 show ?thesis by simp
qed

text \<open>
  Claim C10 says that a data row with fewer cells than the header is padded with null
  cells. With a header of two names and the single data row \<open>AAA\<close> the constructor raises
  \<open>ValueError\<close> instead: it pads to the widest data row, not to the header.
\<close>

theorem table_extractor_short_row_cex:
  "stock_performers_ws (Tag ''table'' [] [tr [''Name'', ''Chg''], tr [''AAA'']]) = Inl ValueError"
  by (simp add: stock_performers_ws_def eval_simps DataFrame_def width_def)

text \<open>
  Claim C10 as amended: for every block with a header row and at least one data row, when
  no data row has more fragments than the header and some data row has as many, the
  extractor returns the table in which every shorter row is filled with null cells up to
  the header's width; in every other case (a data row wider than the header, or all data
  rows narrower) it raises \<open>ValueError\<close>.
\<close>

theorem table_extractor_row_policy:
  assumes "find_all ''tr'' block = row0 # others" and "others \<noteq> []"
  shows "stock_performers_ws block =
    (if (\<exists>row\<in>set others. length (fragments (get_text row)) = length (fragments (get_text row0)))
        \<and> (\<forall>row\<in>set others. length (fragments (get_text row)) \<le> length (fragments (get_text row0)))
     then Inr (Some \<lparr>columns = fragments (get_text row0),
                      rows = map (\<lambda>row. map Some (fragments (get_text row))
                                     @ replicate (length (fragments (get_text row0))
                                                  - length (fragments (get_text row))) None) others\<rparr>)
     else Inl ValueError)"
proof -
  let ?cols = "fragments (get_text row0)"
  let ?data = "map (\<lambda>row. fragments (get_text row)) others"
  have ne: "?data \<noteq> []" using assms(2) by simp
  have w: "(width ?data = length ?cols) =
      ((\<exists>row\<in>set others. length (fragments (get_text row)) = length ?cols)
        \<and> (\<forall>row\<in>set others. length (fragments (get_text row)) \<le> length ?cols))"
    by (subst width_eq_iff [OF ne]) auto
  show ?thesis
  proof (cases "width ?data = length ?cols")
    case True
    then have "DataFrame ?data ?cols = Inr \<lparr>columns = ?cols, rows = map (pad (length ?cols)) ?data\<rparr>"
      using ne by (simp add: DataFrame_def)
    with True w show ?thesis
      by (simp add: performers_rows [OF assms(1)] pad_def comp_def)
  next
    case False
    then have "DataFrame ?data ?cols = Inl ValueError"
      using ne by (auto simp: DataFrame_def)
    with False w show ?thesis
      by (simp add: performers_rows [OF assms(1)])
  qed
qed

theorem table_extractor_row_policy_witness:
  "find_all ''tr'' (Tag ''table'' [] [tr [''Name'', ''Chg''], tr [''AAA''], tr [''BBB'', ''+2%'']])
     = [tr [''Name'', ''Chg''], tr [''AAA''], tr [''BBB'', ''+2%'']] \<and>
   [tr [''AAA''], tr [''BBB'', ''+2%'']] \<noteq> [] \<and>
   stock_performers_ws (Tag ''table'' [] [tr [''Name'', ''Chg''], tr [''AAA''], tr [''BBB'', ''+2%'']])
     = Inr (Some \<lparr>columns = [''Name'', ''Chg''],
                    rows = [[Some ''AAA'', None], [Some ''BBB'', Some ''+2%'']]\<rparr>)"
proof -
  let ?block = "Tag ''table'' [] [tr [''Name'', ''Chg''], tr [''AAA''], tr [''BBB'', ''+2%'']]"
  have r: "find_all ''tr'' ?block = [tr [''Name'', ''Chg''], tr [''AAA''], tr [''BBB'', ''+2%'']]"
    by (simp add: eval_simps)
  have ne: "[tr [''AAA''], tr [''BBB'', ''+2%'']] \<noteq> []" by simp
  have f0: "fragments (get_text (tr [''Name'', ''Chg''])) = [''Name'', ''Chg'']"
    by (simp add: eval_simps)
  have f1: "fragments (get_text (tr [''AAA''])) = [''AAA'']"
    by (simp add: eval_simps)
  have f2: "fragments (get_text (tr [''BBB'', ''+2%''])) = [''BBB'', ''+2%'']"
    by (simp add: eval_simps)
  from table_extractor_row_policy [OF r ne]
  have "stock_performers_ws ?block
     = Inr (Some \<lparr>columns = [''Name'', ''Chg''],
                    rows = [[Some ''AAA'', None], [Some ''BBB'', Some ''+2%'']]\<rparr>)"
    by (simp add: f0 f1 f2)
  with r ne show ?thesis by blast
qed

section \<open>The index view\<close>

text \<open>
  Claim C9: for every identifier that is not supported, constructing the view raises
  \<open>Warning\<close> at once and leaves the world as it was: no request has been sent. This holds
  whatever \<open>str.upper\<close> does to the identifier.
\<close>

theorem index_view_unsupported:
  "\<not> supported str_upper index \<Longrightarrow>
   IndexView_init str_upper data_module index w = (Inl Warning, w)"
  by (simp add: IndexView_init_def supported_def)

theorem index_view_unsupported_witness:
  "\<not> supported upper_ascii ''dow'' \<and>
   IndexView_init upper_ascii Map.empty ''dow'' (serve good_page)
     = (Inl Warning, serve good_page)"
proof -
  have h: "\<not> supported upper_ascii ''dow''"
    by (simp add: supported_def upper_ascii_def upper_ascii_char_def AVAILABLE_INDEX_def)
  from h index_view_unsupported [OF h] show ?thesis by (rule conjI)
qed

lemma lower_case_supported: "supported upper_ascii ''sp500''"
  by code_simp

section \<open>The scrape\<close>

lemmas page_simps = page_def period_block_def gainers_rows_def decliners_block_def
  good_page_def no_rows_page_def renamed_page_def serve_def

lemmas metric_simps = performance_by_period_def performance_top_stocks_def
  performance_bottom_stocks_def regex_def

lemmas find_simps = find_div_def doc_descendants_def page_simps metric_simps
  class_matches_def metric_div_def tr_def td_def nl_def

lemma locate_step:
  "sp500_locate (metric # rest) ws_dict w =
     (case network w (length (sent w)) index_url of
        None \<Rightarrow> (Inl ConnectionError, w\<lparr>sent := sent w @ [index_url]\<rparr>)
      | Some doc \<Rightarrow>
          (case find_div doc (regex metric) of
             None \<Rightarrow> (Inl TypeError, w\<lparr>sent := sent w @ [index_url]\<rparr>)
           | Some ws_metric \<Rightarrow>
               if contents ws_metric = []
               then (Inr None, print (changed_message metric) (w\<lparr>sent := sent w @ [index_url]\<rparr>))
               else sp500_locate rest (AList.update metric ws_metric ws_dict)
                      (w\<lparr>sent := sent w @ [index_url]\<rparr>)))"
  by (simp add: requests_get_def split: option.splits)

declare sp500_locate.simps(2) [simp del]




lemma locate_three:
  assumes "fst (sp500_locate [m1, m2, m3] [] w) = Inr (Some ws)"
  shows "\<exists>d1 d2 d3 c1 c2 c3.
      network w (length (sent w)) index_url = Some d1
    \<and> network w (length (sent w) + 1) index_url = Some d2
    \<and> network w (length (sent w) + 2) index_url = Some d3
    \<and> find_div d1 (regex m1) = Some c1
    \<and> find_div d2 (regex m2) = Some c2
    \<and> find_div d3 (regex m3) = Some c3
    \<and> ws = AList.update m3 c3 (AList.update m2 c2 (AList.update m1 c1 []))"
  using assms
  by (auto simp: locate_step split: option.splits if_splits)


lemma find_no_rows:
  "find_div no_rows_page (regex performance_by_period) = Some period_block"
  "find_div no_rows_page (regex performance_top_stocks)
     = Some (metric_div ''ByIndexGainers'' [NavigableString ''No data''])"
  "find_div no_rows_page (regex performance_bottom_stocks) = Some decliners_block"
  by (simp_all add: find_simps)

lemma find_renamed:
  "find_div renamed_page (regex performance_by_period) = Some period_block"
  "find_div renamed_page (regex performance_top_stocks) = None"
  by (simp_all add: find_simps)

lemma blocks_nonempty:
  "contents period_block \<noteq> []"
  "contents (metric_div ''ByIndexGainers'' gainers_rows) \<noteq> []"
  "contents (metric_div ''ByIndexGainers'' [NavigableString ''No data'']) \<noteq> []"
  "contents decliners_block \<noteq> []"
  by (simp_all add: page_simps metric_div_def)

lemma period_block_data:
  "sp500_data_1 period_block = Inr [(''1 Day'', ''+1.2%''), (''1 Year'', ''+15.0%'')]"
  by (simp add: sp500_data_1_def period_block_def eval_simps sp500_periods.simps)


lemma gainers_no_rows:
  "stock_performers_ws (metric_div ''ByIndexGainers'' [NavigableString ''No data'']) = Inr None"
  by (simp add: stock_performers_ws_def eval_simps)

lemma decliners_table:
  "stock_performers_ws decliners_block
     = Inr (Some \<lparr>columns = [''Name'', ''Chg''], rows = [[Some ''CCC'', Some ''-3%'']]\<rparr>)"
  by (simp add: stock_performers_ws_def decliners_block_def eval_simps DataFrame_def width_def pad_def)

lemma network_serve: "network (serve doc\<lparr>sent := s\<rparr>) n url = Some doc"
  "network (serve doc) n url = Some doc"
  by (simp_all add: serve_def)

lemma names_distinct:
  "performance_by_period \<noteq> performance_top_stocks"
  "performance_by_period \<noteq> performance_bottom_stocks"
  "performance_top_stocks \<noteq> performance_by_period"
  "performance_top_stocks \<noteq> performance_bottom_stocks"
  "performance_bottom_stocks \<noteq> performance_by_period"
  "performance_bottom_stocks \<noteq> performance_top_stocks"
  by (simp_all add: performance_by_period_def performance_top_stocks_def
      performance_bottom_stocks_def)

lemma extract_three:
  "sp500_extract [(performance_by_period, c1), (performance_top_stocks, c2),
      (performance_bottom_stocks, c3)] =
     (case sp500_data_1 c1 of
        Inl e \<Rightarrow> Inl e
      | Inr data_1 \<Rightarrow>
     (case stock_performers_ws c2 of
        Inl e \<Rightarrow> Inl e
      | Inr data_2 \<Rightarrow>
     (case stock_performers_ws c3 of
        Inl e \<Rightarrow> Inl e
      | Inr data_3 \<Rightarrow>
          Inr (Some \<lparr>performance = data_1, ByIndexGainers = data_2,
                     ByIndexDecliners = data_3\<rparr>))))"
  by (simp add: sp500_extract_def subscript_def names_distinct split: sum.splits)


lemma scrape_no_rows:
  "sp500 (serve no_rows_page) =
     (Inr (Some \<lparr>performance = [(''1 Day'', ''+1.2%''), (''1 Year'', ''+15.0%'')],
        ByIndexGainers = None,
        ByIndexDecliners = Some \<lparr>columns = [''Name'', ''Chg''], rows = [[Some ''CCC'', Some ''-3%'']]\<rparr>\<rparr>),
      serve no_rows_page\<lparr>sent := [index_url, index_url, index_url]\<rparr>)"
  by (simp add: sp500_def locate_step network_serve find_no_rows blocks_nonempty names_distinct
      extract_three period_block_data gainers_no_rows decliners_table)
    (simp add: serve_def)

lemma scrape_renamed:
  "sp500 (serve renamed_page) = (Inl TypeError, serve renamed_page\<lparr>sent := [index_url, index_url]\<rparr>)"
  by (simp add: sp500_def locate_step network_serve find_renamed blocks_nonempty names_distinct)
    (simp add: serve_def)

text \<open>
  Claim C1 says that the scrape never returns a partially populated result. On the page
  whose gainers block holds no row it returns a bundle whose gainers slot is \<open>None\<close>
  while the two other slots hold data.
\<close>

theorem scrape_partial_bundle_cex:
  "fst (sp500 (serve no_rows_page)) =
     Inr (Some \<lparr>performance = [(''1 Day'', ''+1.2%''), (''1 Year'', ''+15.0%'')],
        ByIndexGainers = None,
        ByIndexDecliners = Some \<lparr>columns = [''Name'', ''Chg''], rows = [[Some ''CCC'', Some ''-3%'']]\<rparr>\<rparr>)"
  by (simp add: scrape_no_rows)

lemma extract_not_none: "sp500_extract ws \<noteq> Inr None"
  by (simp add: sp500_extract_def split: sum.splits)

lemma performers_none: "(stock_performers_ws block = Inr None) = (find_all ''tr'' block = [])"
  by (cases "find_all ''tr'' block")
    (auto simp: stock_performers_ws_def split: sum.splits)

lemma scrape_unrolled:
  "fst (sp500 w) =
     (case located w 0 performance_by_period of
        None \<Rightarrow> fst (sp500 w)
      | Some c1 \<Rightarrow>
          if contents c1 = [] then Inr None
          else (case located w 1 performance_top_stocks of
                  None \<Rightarrow> fst (sp500 w)
                | Some c2 \<Rightarrow>
                    if contents c2 = [] then Inr None
                    else (case located w 2 performance_bottom_stocks of
                            None \<Rightarrow> fst (sp500 w)
                          | Some c3 \<Rightarrow>
                              if contents c3 = [] then Inr None
                              else sp500_extract
                                     [(performance_by_period, c1), (performance_top_stocks, c2),
                                      (performance_bottom_stocks, c3)])))"
  by (simp add: sp500_def located_def locate_step names_distinct numeral_2_eq_2
      split: option.splits)

lemma scrape_unlocated:
  "located w 0 performance_by_period = None \<Longrightarrow> \<exists>e. fst (sp500 w) = Inl e"
  "located w 0 performance_by_period = Some c1 \<Longrightarrow> contents c1 \<noteq> [] \<Longrightarrow>
   located w 1 performance_top_stocks = None \<Longrightarrow> \<exists>e. fst (sp500 w) = Inl e"
  "located w 0 performance_by_period = Some c1 \<Longrightarrow> contents c1 \<noteq> [] \<Longrightarrow>
   located w 1 performance_top_stocks = Some c2 \<Longrightarrow> contents c2 \<noteq> [] \<Longrightarrow>
   located w 2 performance_bottom_stocks = None \<Longrightarrow> \<exists>e. fst (sp500 w) = Inl e"
  by (auto simp: sp500_def located_def locate_step names_distinct numeral_2_eq_2
      split: option.splits)

lemma extract_some:
  "(sp500_extract [(performance_by_period, c1), (performance_top_stocks, c2),
      (performance_bottom_stocks, c3)] = Inr (Some b)) =
   (sp500_data_1 c1 = Inr (performance b) \<and> stock_performers_ws c2 = Inr (ByIndexGainers b)
      \<and> stock_performers_ws c3 = Inr (ByIndexDecliners b))"
  by (cases b) (auto simp: extract_three split: sum.splits)

lemma located_serve: "located (serve doc) i metric = find_div doc (regex metric)"
  by (simp add: located_def serve_def)

text \<open>
  Claim C1 as amended. The scrape returns \<open>None\<close> exactly when the blocks are found one
  after the other, each with children, up to one that is found without any child node.
  It returns a bundle exactly when all three blocks are found with children and the
  period parser and the two table extractions return; the bundle then holds the period
  mapping of the period block and, in each performer slot, what the table extractor
  returned for that slot's own block. The table extractor returns \<open>None\<close> exactly for a
  block without a row, so a bundle may hold \<open>None\<close> in one performer slot beside data in
  the others. Every other run raises an exception.
\<close>

theorem scrape_outcomes:
  "((fst (sp500 w) = Inr None) =
      ((\<exists>c1. located w 0 performance_by_period = Some c1 \<and> contents c1 = [])
     \<or> (\<exists>c1 c2. located w 0 performance_by_period = Some c1 \<and> contents c1 \<noteq> []
           \<and> located w 1 performance_top_stocks = Some c2 \<and> contents c2 = [])
     \<or> (\<exists>c1 c2 c3. located w 0 performance_by_period = Some c1 \<and> contents c1 \<noteq> []
           \<and> located w 1 performance_top_stocks = Some c2 \<and> contents c2 \<noteq> []
           \<and> located w 2 performance_bottom_stocks = Some c3 \<and> contents c3 = [])))
   \<and> ((fst (sp500 w) = Inr (Some b)) =
      (\<exists>c1 c2 c3. located w 0 performance_by_period = Some c1 \<and> contents c1 \<noteq> []
           \<and> located w 1 performance_top_stocks = Some c2 \<and> contents c2 \<noteq> []
           \<and> located w 2 performance_bottom_stocks = Some c3 \<and> contents c3 \<noteq> []
           \<and> sp500_data_1 c1 = Inr (performance b)
           \<and> stock_performers_ws c2 = Inr (ByIndexGainers b)
           \<and> stock_performers_ws c3 = Inr (ByIndexDecliners b)))
   \<and> ((stock_performers_ws block = Inr None) = (find_all ''tr'' block = []))"
proof (intro conjI)
  show "(stock_performers_ws block = Inr None) = (find_all ''tr'' block = [])"
    by (rule performers_none)
next
  show "(fst (sp500 w) = Inr None) =
      ((\<exists>c1. located w 0 performance_by_period = Some c1 \<and> contents c1 = [])
     \<or> (\<exists>c1 c2. located w 0 performance_by_period = Some c1 \<and> contents c1 \<noteq> []
           \<and> located w 1 performance_top_stocks = Some c2 \<and> contents c2 = [])
     \<or> (\<exists>c1 c2 c3. located w 0 performance_by_period = Some c1 \<and> contents c1 \<noteq> []
           \<and> located w 1 performance_top_stocks = Some c2 \<and> contents c2 \<noteq> []
           \<and> located w 2 performance_bottom_stocks = Some c3 \<and> contents c3 = []))"
  proof (cases "located w 0 performance_by_period")
    case None
    with scrape_unlocated(1) [OF None] show ?thesis by auto
  next
    case c1: (Some c1)
    show ?thesis
    proof (cases "contents c1 = []")
      case True
      with c1 show ?thesis by (subst scrape_unrolled) simp
    next
      case n1: False
      show ?thesis
      proof (cases "located w 1 performance_top_stocks")
        case None
        with scrape_unlocated(2) [OF c1 n1 None] c1 n1 show ?thesis by auto
      next
        case c2: (Some c2)
        show ?thesis
        proof (cases "contents c2 = []")
          case True
          with c1 n1 c2 show ?thesis by (subst scrape_unrolled) simp
        next
          case n2: False
          show ?thesis
          proof (cases "located w 2 performance_bottom_stocks")
            case None
            with scrape_unlocated(3) [OF c1 n1 c2 n2 None] c1 n1 c2 n2 show ?thesis by auto
          next
            case c3: (Some c3)
            with c1 n1 c2 n2 show ?thesis
              by (subst scrape_unrolled) (simp add: extract_not_none)
          qed
        qed
      qed
    qed
  qed
next
  show "(fst (sp500 w) = Inr (Some b)) =
      (\<exists>c1 c2 c3. located w 0 performance_by_period = Some c1 \<and> contents c1 \<noteq> []
           \<and> located w 1 performance_top_stocks = Some c2 \<and> contents c2 \<noteq> []
           \<and> located w 2 performance_bottom_stocks = Some c3 \<and> contents c3 \<noteq> []
           \<and> sp500_data_1 c1 = Inr (performance b)
           \<and> stock_performers_ws c2 = Inr (ByIndexGainers b)
           \<and> stock_performers_ws c3 = Inr (ByIndexDecliners b))"
  proof (cases "located w 0 performance_by_period")
    case None
    with scrape_unlocated(1) [OF None] show ?thesis by auto
  next
    case c1: (Some c1)
    show ?thesis
    proof (cases "contents c1 = []")
      case True
      with c1 show ?thesis by (subst scrape_unrolled) simp
    next
      case n1: False
      show ?thesis
      proof (cases "located w 1 performance_top_stocks")
        case None
        with scrape_unlocated(2) [OF c1 n1 None] c1 n1 show ?thesis by auto
      next
        case c2: (Some c2)
        show ?thesis
        proof (cases "contents c2 = []")
          case True
          with c1 n1 c2 show ?thesis by (subst scrape_unrolled) simp
        next
          case n2: False
          show ?thesis
          proof (cases "located w 2 performance_bottom_stocks")
            case None
            with scrape_unlocated(3) [OF c1 n1 c2 n2 None] c1 n1 c2 n2 show ?thesis by auto
          next
            case c3: (Some c3)
            with c1 n1 c2 n2 show ?thesis
              by (subst scrape_unrolled) (simp add: extract_some)
          qed
        qed
      qed
    qed
  qed
qed

theorem scrape_outcomes_witness:
  "(located (serve no_rows_page) 0 performance_by_period = Some period_block
      \<and> contents period_block \<noteq> []
      \<and> located (serve no_rows_page) 1 performance_top_stocks
          = Some (metric_div ''ByIndexGainers'' [NavigableString ''No data''])
      \<and> contents (metric_div ''ByIndexGainers'' [NavigableString ''No data'']) \<noteq> []
      \<and> located (serve no_rows_page) 2 performance_bottom_stocks = Some decliners_block
      \<and> contents decliners_block \<noteq> []
      \<and> find_all ''tr'' (metric_div ''ByIndexGainers'' [NavigableString ''No data'']) = [])
   \<and> fst (sp500 (serve no_rows_page)) =
     Inr (Some \<lparr>performance = [(''1 Day'', ''+1.2%''), (''1 Year'', ''+15.0%'')],
        ByIndexGainers = None,
        ByIndexDecliners = Some \<lparr>columns = [''Name'', ''Chg''], rows = [[Some ''CCC'', Some ''-3%'']]\<rparr>\<rparr>)
   \<and> located (serve [Tag ''div'' [''element'', ''element--table'', ''performance''] []]) 0
        performance_by_period = Some (Tag ''div'' [''element'', ''element--table'', ''performance''] [])
   \<and> fst (sp500 (serve [Tag ''div'' [''element'', ''element--table'', ''performance''] []]))
        = Inr None"
proof -
  let ?b = "\<lparr>performance = [(''1 Day'', ''+1.2%''), (''1 Year'', ''+15.0%'')],
        ByIndexGainers = None,
        ByIndexDecliners = Some \<lparr>columns = [''Name'', ''Chg''], rows = [[Some ''CCC'', Some ''-3%'']]\<rparr>\<rparr>"
  let ?g = "metric_div ''ByIndexGainers'' [NavigableString ''No data'']"
  let ?e = "Tag ''div'' [''element'', ''element--table'', ''performance''] []"
  have l: "located (serve no_rows_page) 0 performance_by_period = Some period_block"
    "located (serve no_rows_page) 1 performance_top_stocks = Some ?g"
    "located (serve no_rows_page) 2 performance_bottom_stocks = Some decliners_block"
    by (simp_all add: located_serve find_no_rows)
  have rows: "find_all ''tr'' ?g = []" by (simp add: eval_simps)
  have slots: "sp500_data_1 period_block = Inr (performance ?b)"
    "stock_performers_ws ?g = Inr (ByIndexGainers ?b)"
    "stock_performers_ws decliners_block = Inr (ByIndexDecliners ?b)"
    by (simp_all add: period_block_data gainers_no_rows decliners_table)
  have some: "fst (sp500 (serve no_rows_page)) = Inr (Some ?b)"
    using scrape_outcomes [of "serve no_rows_page" ?b ?g] l slots blocks_nonempty
    by blast
  have le: "located (serve [?e]) 0 performance_by_period = Some ?e"
    by (simp add: located_serve find_div_def doc_descendants_def metric_simps class_matches_def)
  have "contents ?e = []" by simp
  with le scrape_outcomes [of "serve [?e]" ?b ?g]
  have none: "fst (sp500 (serve [?e])) = Inr None"
    by blast
  from l blocks_nonempty rows some le none show ?thesis by simp
qed

text \<open>
  Claim C3 at the page whose gainers block was renamed: no \<open>div\<close> matches the pattern of
  \<open>ByIndexGainers\<close>, \<open>find\<close> returns \<open>None\<close>, and \<open>len(None)\<close> raises \<open>TypeError\<close>; the
  scrape ends with that exception and the message naming the metric is never printed.
\<close>

theorem scrape_renamed_block_raises:
  "fst (sp500 (serve renamed_page)) = Inl TypeError \<and>
   stdout (snd (sp500 (serve renamed_page))) = []"
  by (simp add: scrape_renamed) (simp add: serve_def)

lemma locator_no_match:
  "network w (length (sent w)) index_url = Some doc \<Longrightarrow> find_div doc (regex metric) = None \<Longrightarrow>
   sp500_locate (metric # rest) ws_dict w = (Inl TypeError, w\<lparr>sent := sent w @ [index_url]\<rparr>)"
  by (simp add: locate_step)

lemma locator_empty_block:
  "network w (length (sent w)) index_url = Some doc \<Longrightarrow>
   find_div doc (regex metric) = Some block \<Longrightarrow> contents block = [] \<Longrightarrow>
   sp500_locate (metric # rest) ws_dict w =
     (Inr None, w\<lparr>sent := sent w @ [index_url],
                   stdout := stdout w @ [changed_message metric]\<rparr>)"
  by (simp add: locate_step print_def)




end
